theory Spec2Isabelle
  imports Main "HOL-Library.Sublist"
begin

section \<open>contract_decompile.py: decompile Wasm contracts and repair their imports\<close>

text \<open>
  A shallow embedding of \<^verbatim>\<open>src/contract_decompile/contract_decompile.py\<close>.
  Text is a \<^typ>\<open>string\<close>: a list of code points below 256. Python's \<^verbatim>\<open>dict\<close> is a
  map, \<^verbatim>\<open>SystemExit\<close> and the other exceptions are values of \<open>error\<close>, and the
  directories the script reads and writes are maps from file names to contents.
  The \<^verbatim>\<open>print\<close> calls of the script are progress messages and are left out.
\<close>

subsection \<open>Fatal errors\<close>

text \<open>
  One constructor for each \<^verbatim>\<open>raise SystemExit(...)\<close> of the script, carrying the
  values its message interpolates, and one for each exception of a collaborator
  (\<^verbatim>\<open>urlopen\<close>, \<^verbatim>\<open>subprocess.run(check=True)\<close>, \<^verbatim>\<open>read_text\<close>).
\<close>

datatype error =
    FunctionEntryMissing
  | MissingWat string
  | ImportCountMismatch string nat nat
  | MappingNotFound string string
  | ExpectedNotFound string string
  | FetchFailed string
  | DecompileFailed string
  | ReadFailed string

subsection \<open>The naming descriptor and \<^verbatim>\<open>build_map\<close>\<close>

text \<open>
  The descriptor is the parsed JSON document
  \<^verbatim>\<open>{"modules": [{"export"?: str, "functions": [{"export"?: str, "name"?: str}]}]}\<close>.
  \<^verbatim>\<open>d.get(k)\<close> is \<^verbatim>\<open>None\<close> both for a missing key and for a JSON \<^verbatim>\<open>null\<close>, so
  an optional field is an \<open>option\<close>; \<^verbatim>\<open>d.get(k, [])\<close> of a missing key is the empty
  list.
\<close>

record fn_entry =
  fn_export :: "string option"
  fn_name :: "string option"

record mod_entry =
  mod_export :: "string option"
  mod_functions :: "fn_entry list option"

record env =
  env_modules :: "mod_entry list option"

type_synonym naming_table = "string \<rightharpoonup> string"

definition get_list :: "'a list option \<Rightarrow> 'a list" where
  "get_list v = (case v of None \<Rightarrow> [] | Some xs \<Rightarrow> xs)"

text \<open>Lines 28 to 34: the loop over the functions of one module.\<close>

fun add_functions :: "string \<Rightarrow> naming_table \<Rightarrow> fn_entry list \<Rightarrow> error + naming_table" where
  "add_functions mod_exp m [] = Inr m"
| "add_functions mod_exp m (fn # fns) =
     (case (fn_export fn, fn_name fn) of
        (Some fn_exp, Some name) \<Rightarrow> add_functions mod_exp (m(mod_exp @ fn_exp \<mapsto> name)) fns
      | _ \<Rightarrow> Inl FunctionEntryMissing)"

text \<open>
  Lines 25 to 27: the loop over the modules. \<^verbatim>\<open>if not mod_exp: continue\<close> skips a
  module whose alias is \<^verbatim>\<open>None\<close> or the empty string.
\<close>

fun add_modules :: "naming_table \<Rightarrow> mod_entry list \<Rightarrow> error + naming_table" where
  "add_modules m [] = Inr m"
| "add_modules m (md # mods) =
     (case mod_export md of
        None \<Rightarrow> add_modules m mods
      | Some mod_exp \<Rightarrow>
          if mod_exp = [] then add_modules m mods
          else (case add_functions mod_exp m (get_list (mod_functions md)) of
                  Inl e \<Rightarrow> Inl e
                | Inr m' \<Rightarrow> add_modules m' mods))"

definition build_map :: "env \<Rightarrow> error + naming_table" where
  "build_map e = add_modules Map.empty (get_list (env_modules e))"

subsection \<open>Strings: \<^verbatim>\<open>in\<close>, \<^verbatim>\<open>str.replace\<close>, decimal numbers\<close>

text \<open>\<^verbatim>\<open>p in s\<close> on strings: \<open>p\<close> occurs in \<open>s\<close> as a contiguous substring.\<close>

fun contains :: "string \<Rightarrow> string \<Rightarrow> bool" where
  "contains p [] = (p = [])"
| "contains p (c # cs) = (prefix p (c # cs) \<or> contains p cs)"

text \<open>
  \<^verbatim>\<open>s.replace(old, new)\<close> replaces the occurrences of \<open>old\<close> from the left, without
  overlap. \<open>replace_scan\<close> is the scan for a non-empty \<open>old\<close>; for the empty \<open>old\<close>
  Python puts \<open>new\<close> before every character and at the end.
\<close>

fun replace_scan :: "string \<Rightarrow> string \<Rightarrow> string \<Rightarrow> string" where
  "replace_scan old new [] = []"
| "replace_scan old new (c # cs) =
     (if prefix old (c # cs) then new @ replace_scan old new (drop (length old - 1) cs)
      else c # replace_scan old new cs)"

definition replace :: "string \<Rightarrow> string \<Rightarrow> string \<Rightarrow> string" where
  "replace old new s =
     (if old = [] then new @ concat (map (\<lambda>c. c # new) s) else replace_scan old new s)"

text \<open>The decimal digits of a number, as an f-string writes \<^verbatim>\<open>{len(xs)}\<close>.\<close>

function string_of_nat :: "nat \<Rightarrow> string" where
  "string_of_nat n =
     (if n < 10 then [char_of (48 + n)]
      else string_of_nat (n div 10) @ [char_of (48 + n mod 10)])"
  by pat_completeness auto
termination
  by (relation "measure id") auto

declare string_of_nat.simps [simp del]

text \<open>The text a \<^verbatim>\<open>SystemExit\<close> of the script prints; the other errors are tracebacks.\<close>

fun exit_message :: "error \<Rightarrow> string option" where
  "exit_message FunctionEntryMissing = Some ''function entry missing export or name''"
| "exit_message (MissingWat name) = Some (''missing wat for '' @ name)"
| "exit_message (ImportCountMismatch name d w) =
     Some (''import count mismatch in '' @ name @ '': decomp='' @ string_of_nat d
           @ '' wat='' @ string_of_nat w)"
| "exit_message (MappingNotFound key name) =
     Some (''mapping not found for '' @ key @ '' (file '' @ name @ '')'')"
| "exit_message (ExpectedNotFound orig name) =
     Some (''expected ' '' @ orig @ ''(' in decomp '' @ name @ '' but not found'')"
| "exit_message (FetchFailed url) = None"
| "exit_message (DecompileFailed f) = None"
| "exit_message (ReadFailed f) = None"

subsection \<open>The two regular expressions\<close>

text \<open>
  The classes of Python's \<^verbatim>\<open>re\<close> on \<^verbatim>\<open>str\<close> patterns, for code points below 256:
  \<^verbatim>\<open>\s\<close> is Unicode white space, \<^verbatim>\<open>\w\<close> (which decides \<^verbatim>\<open>\b\<close>) is a Unicode
  letter or number or the underscore, and \<^verbatim>\<open>[A-Za-z0-9_]\<close> is the ASCII class as
  written.
\<close>

definition py_space :: "char \<Rightarrow> bool" where
  "py_space c = (let n = (of_char c :: nat) in
     (9 \<le> n \<and> n \<le> 13) \<or> (28 \<le> n \<and> n \<le> 32) \<or> n = 133 \<or> n = 160)"

definition ident_char :: "char \<Rightarrow> bool" where
  "ident_char c = (let n = (of_char c :: nat) in
     (65 \<le> n \<and> n \<le> 90) \<or> (97 \<le> n \<and> n \<le> 122) \<or> (48 \<le> n \<and> n \<le> 57) \<or> n = 95)"

definition py_word :: "char \<Rightarrow> bool" where
  "py_word c = (let n = (of_char c :: nat) in
     ident_char c \<or> n = 170 \<or> n = 178 \<or> n = 179 \<or> n = 181 \<or> n = 185 \<or> n = 186
     \<or> n = 188 \<or> n = 189 \<or> n = 190 \<or> (192 \<le> n \<and> n \<noteq> 215 \<and> n \<noteq> 247))"

text \<open>
  \<^verbatim>\<open>\b\<close> holds between two positions when exactly one of the neighbours is a word
  character; the start and the end of the text count as non-word.
\<close>

definition word_boundary :: "char option \<Rightarrow> char option \<Rightarrow> bool" where
  "word_boundary prev nxt =
     ((case prev of None \<Rightarrow> False | Some c \<Rightarrow> py_word c)
      \<noteq> (case nxt of None \<Rightarrow> False | Some c \<Rightarrow> py_word c))"

text \<open>
  One attempt of \<^verbatim>\<open>\bimport function\s+([A-Za-z0-9_]+)\s*\(\<close> at a position: \<open>prev\<close>
  is the character before it, \<open>s\<close> the text from it on. The result is group 1 and the
  text after the match. Each greedy repetition is followed by a character outside its
  class, so giving characters back can never turn a failed attempt into a match, and
  the longest run is the only candidate.
\<close>

definition match_decomp_import :: "char option \<Rightarrow> string \<Rightarrow> (string \<times> string) option" where
  "match_decomp_import prev s =
     (if word_boundary prev (case s of [] \<Rightarrow> None | c # _ \<Rightarrow> Some c)
         \<and> prefix ''import function'' s
      then
        (let r1 = drop (length ''import function'') s;
             r2 = dropWhile py_space r1;
             ident = takeWhile ident_char r2;
             r3 = dropWhile py_space (dropWhile ident_char r2)
         in if takeWhile py_space r1 = [] \<or> ident = [] then None
            else (case r3 of
                    [] \<Rightarrow> None
                  | c # rest \<Rightarrow> if c = CHR ''('' then Some (ident, rest) else None))
      else None)"

lemma match_decomp_import_shorter:
  "match_decomp_import prev s = Some (ident, rest) \<Longrightarrow> length rest < length s"
proof -
  assume m: "match_decomp_import prev s = Some (ident, rest)"
  define r1 where "r1 = drop (length ''import function'') s"
  define r2 where "r2 = dropWhile ident_char (dropWhile py_space r1)"
  have "\<exists>c. dropWhile py_space r2 = c # rest"
    using m unfolding match_decomp_import_def r1_def r2_def Let_def
    by (auto split: if_splits list.splits)
  then obtain c where c: "dropWhile py_space r2 = c # rest" by blast
  have "length (dropWhile py_space r2) \<le> length r2"
    by (rule length_dropWhile_le)
  also have "\<dots> \<le> length (dropWhile py_space r1)"
    unfolding r2_def by (rule length_dropWhile_le)
  also have "\<dots> \<le> length r1"
    by (rule length_dropWhile_le)
  also have "\<dots> \<le> length s"
    unfolding r1_def by simp
  finally show ?thesis using c by simp
qed

text \<open>
  \<^verbatim>\<open>re.findall\<close>: try every position from the left; after a match go on behind it.
  A match ends with \<^verbatim>\<open>(\<close>, which is then the character before the next position.
\<close>

function findall_decomp :: "char option \<Rightarrow> string \<Rightarrow> string list" where
  "findall_decomp prev [] = []"
| "findall_decomp prev (c # cs) =
     (case match_decomp_import prev (c # cs) of
        Some (ident, rest) \<Rightarrow> ident # findall_decomp (Some (CHR ''('')) rest
      | None \<Rightarrow> findall_decomp (Some c) cs)"
  by pat_completeness auto
termination
  by (relation "measure (\<lambda>(prev, s). length s)")
     (auto dest: match_decomp_import_shorter)

definition extract_decomp_imports :: "string \<Rightarrow> string list" where
  "extract_decomp_imports s = findall_decomp None s"

text \<open>
  One attempt of \<^verbatim>\<open>\(import\s+"([^"]+)"\s+"([^"]+)"\<close>: the result is the two groups
  and the text after the match. \<^verbatim>\<open>[^"]\<close> also matches a line break.
\<close>

definition quoted :: "string \<Rightarrow> (string \<times> string) option" where
  "quoted s =
     (case s of
        [] \<Rightarrow> None
      | q # r \<Rightarrow>
          if q \<noteq> CHR 0x22 then None
          else (let body = takeWhile (\<lambda>c. c \<noteq> CHR 0x22) r in
                if body = [] then None
                else (case dropWhile (\<lambda>c. c \<noteq> CHR 0x22) r of
                        [] \<Rightarrow> None
                      | _ # rest \<Rightarrow> Some (body, rest))))"

definition spaces_then_quoted :: "string \<Rightarrow> (string \<times> string) option" where
  "spaces_then_quoted s =
     (if takeWhile py_space s = [] then None else quoted (dropWhile py_space s))"

definition match_wat_import :: "string \<Rightarrow> ((string \<times> string) \<times> string) option" where
  "match_wat_import s =
     (if prefix ''(import'' s then
        (case spaces_then_quoted (drop (length ''(import'') s) of
           None \<Rightarrow> None
         | Some (m1, r) \<Rightarrow>
             (case spaces_then_quoted r of
                None \<Rightarrow> None
              | Some (m2, rest) \<Rightarrow> Some ((m1, m2), rest)))
      else None)"

lemma quoted_shorter: "quoted s = Some (b, rest) \<Longrightarrow> length rest < length s"
proof -
  assume q: "quoted s = Some (b, rest)"
  then obtain c r x where s: "s = c # r" and d: "dropWhile (\<lambda>c. c \<noteq> CHR 0x22) r = x # rest"
    unfolding quoted_def Let_def by (auto split: list.splits if_splits)
  have "length (dropWhile (\<lambda>c. c \<noteq> CHR 0x22) r) \<le> length r"
    by (rule length_dropWhile_le)
  then show ?thesis using s d by simp
qed

lemma spaces_then_quoted_shorter:
  "spaces_then_quoted s = Some (b, rest) \<Longrightarrow> length rest < length s"
proof -
  assume q: "spaces_then_quoted s = Some (b, rest)"
  then have "quoted (dropWhile py_space s) = Some (b, rest)"
    unfolding spaces_then_quoted_def by (auto split: if_splits)
  then have "length rest < length (dropWhile py_space s)"
    by (rule quoted_shorter)
  also have "\<dots> \<le> length s"
    by (rule length_dropWhile_le)
  finally show ?thesis .
qed

lemma match_wat_import_shorter:
  "match_wat_import s = Some (p, rest) \<Longrightarrow> length rest < length s"
proof -
  assume m: "match_wat_import s = Some (p, rest)"
  then obtain m1 r m2 where
    a: "spaces_then_quoted (drop (length ''(import'') s) = Some (m1, r)" and
    b: "spaces_then_quoted r = Some (m2, rest)"
    unfolding match_wat_import_def by (auto split: if_splits option.splits)
  have "length rest < length r" using b by (rule spaces_then_quoted_shorter)
  also have "\<dots> < length (drop (length ''(import'') s)"
    using a by (rule spaces_then_quoted_shorter)
  also have "\<dots> \<le> length s" by simp
  finally show ?thesis .
qed

function findall_wat :: "string \<Rightarrow> (string \<times> string) list" where
  "findall_wat [] = []"
| "findall_wat (c # cs) =
     (case match_wat_import (c # cs) of
        Some (p, rest) \<Rightarrow> p # findall_wat rest
      | None \<Rightarrow> findall_wat cs)"
  by pat_completeness auto
termination
  by (relation "measure length") (auto dest: match_wat_import_shorter)

definition extract_wat_imports :: "string \<Rightarrow> (string \<times> string) list" where
  "extract_wat_imports s = findall_wat s"

subsection \<open>The import reconciler: \<^verbatim>\<open>process_pairs\<close>\<close>

text \<open>
  Lines 68 to 80, the loop over the zipped pairs. \<open>name\<close> is the file's stem, \<open>doc\<close>
  the text in memory (\<^verbatim>\<open>decomp_text\<close>); a pair is \<^verbatim>\<open>(orig, (m1, m2))\<close>.
\<close>

fun subst_pairs ::
  "naming_table \<Rightarrow> string \<Rightarrow> string \<Rightarrow> (string \<times> string \<times> string) list \<Rightarrow> error + string"
where
  "subst_pairs mapping name doc [] = Inr doc"
| "subst_pairs mapping name doc ((orig, m1, m2) # ps) =
     (let key = m1 @ m2 in
      case mapping key of
        None \<Rightarrow> Inl (MappingNotFound key name)
      | Some new \<Rightarrow>
          (let old_pat = '' '' @ orig @ ''('';
               new_pat = '' '' @ new @ ''(''
           in if contains old_pat doc then subst_pairs mapping name (replace old_pat new_pat doc) ps
              else Inl (ExpectedNotFound orig name)))"

text \<open>Lines 63 to 80: what one file's text becomes, or the fatal error.\<close>

definition reconcile_text :: "naming_table \<Rightarrow> string \<Rightarrow> string \<Rightarrow> string \<Rightarrow> error + string" where
  "reconcile_text mapping name decomp_text wat_text =
     (let decomp_imports = extract_decomp_imports decomp_text;
          wat_imports = extract_wat_imports wat_text
      in if length decomp_imports \<noteq> length wat_imports
         then Inl (ImportCountMismatch name (length decomp_imports) (length wat_imports))
         else subst_pairs mapping name decomp_text (zip decomp_imports wat_imports))"

text \<open>
  The three directories of the script, each a map from file name to content:
  \<^verbatim>\<open>CONTRACTS_DIR\<close>, \<^verbatim>\<open>WAT_DIR\<close> and \<^verbatim>\<open>OUTPUT_DIR\<close>.
\<close>

record files =
  contracts :: "string \<rightharpoonup> string"
  wat :: "string \<rightharpoonup> string"
  decomp :: "string \<rightharpoonup> string"

text \<open>
  \<^verbatim>\<open>Path.stem\<close>: the name without its last suffix. The suffix starts at the last dot,
  unless that dot is the first or the last character of the name.
\<close>

fun rfind :: "char \<Rightarrow> string \<Rightarrow> nat option" where
  "rfind c [] = None"
| "rfind c (x # xs) =
     (case rfind c xs of
        Some i \<Rightarrow> Some (Suc i)
      | None \<Rightarrow> if x = c then Some 0 else None)"

definition stem :: "string \<Rightarrow> string" where
  "stem f =
     (case rfind (CHR ''.'') f of
        None \<Rightarrow> f
      | Some i \<Rightarrow> if 0 < i \<and> Suc i < length f then take i f else f)"

text \<open>
  \<^verbatim>\<open>Path(dir).glob("*.wasm")\<close>: the names of a directory listing that end in
  \<^verbatim>\<open>.wasm\<close>. The order of a listing is the operating system's, so the listing is a
  parameter.
\<close>

definition glob_wasm :: "string list \<Rightarrow> string list" where
  "glob_wasm listing = filter (suffix ''.wasm'') listing"

text \<open>
  Lines 54 to 83, over the files the glob gave. A fatal error ends the run and leaves
  the directories as they are at that moment: the files reconciled before stay
  rewritten, the failing one is not written. A listed file that is not in the
  directory makes \<^verbatim>\<open>read_text\<close> fail.
\<close>

fun process_pairs :: "naming_table \<Rightarrow> string list \<Rightarrow> files \<Rightarrow> (error + unit) \<times> files" where
  "process_pairs mapping [] fs = (Inr (), fs)"
| "process_pairs mapping (f # rest) fs =
     (let name = stem f in
      case wat fs (name @ ''.wat'') of
        None \<Rightarrow> (Inl (MissingWat name), fs)
      | Some wat_text \<Rightarrow>
          (case decomp fs f of
             None \<Rightarrow> (Inl (ReadFailed f), fs)
           | Some decomp_text \<Rightarrow>
               (case reconcile_text mapping name decomp_text wat_text of
                  Inl e \<Rightarrow> (Inl e, fs)
                | Inr new_text \<Rightarrow>
                    process_pairs mapping rest (fs\<lparr>decomp := (decomp fs)(f \<mapsto> new_text)\<rparr>))))"

subsection \<open>The batch decompiler: \<^verbatim>\<open>decompile_all\<close>\<close>

text \<open>
  \<open>tool\<close> is \<^verbatim>\<open>wasm-decompile\<close>: from the content of a module, its standard output and
  whether it exited with status zero. The output file is opened (and truncated) before
  the tool runs, so it holds the tool's output also when \<^verbatim>\<open>check=True\<close> raises; for
  a listed module that is not in the directory the tool fails and the output file is
  left empty.
\<close>

fun decompile_all :: "(string \<Rightarrow> string \<times> bool) \<Rightarrow> string list \<Rightarrow> files \<Rightarrow> (error + unit) \<times> files" where
  "decompile_all tool [] fs = (Inr (), fs)"
| "decompile_all tool (f # rest) fs =
     (case contracts fs f of
        None \<Rightarrow> (Inl (DecompileFailed f), fs\<lparr>decomp := (decomp fs)(f \<mapsto> [])\<rparr>)
      | Some wasm \<Rightarrow>
          (let (out, ok) = tool wasm;
               fs' = fs\<lparr>decomp := (decomp fs)(f \<mapsto> out)\<rparr>
           in if ok then decompile_all tool rest fs' else (Inl (DecompileFailed f), fs')))"

subsection \<open>\<^verbatim>\<open>fetch_json\<close> and \<^verbatim>\<open>main\<close>\<close>

text \<open>Lines 18 and 19: the address \<^verbatim>\<open>fetch_json\<close> opens.\<close>

definition normalize_url :: "string \<Rightarrow> string" where
  "normalize_url url =
     (if contains ''github.com'' url \<and> contains ''/blob/'' url
      then replace ''/blob/'' ''/''
             (replace ''https://github.com'' ''https://raw.githubusercontent.com'' url)
      else url)"

text \<open>\<open>net\<close> is the network: the parsed JSON document an address serves, if any.\<close>

definition fetch_json :: "(string \<rightharpoonup> env) \<Rightarrow> string \<Rightarrow> error + env" where
  "fetch_json net url =
     (let url' = normalize_url url in
      case net url' of None \<Rightarrow> Inl (FetchFailed url') | Some e \<Rightarrow> Inr e)"

definition env_url :: string where
  "env_url = ''https://github.com/stellar/rs-soroban-env/blob/main/soroban-env-common/env.json''"

text \<open>
  Lines 85 to 95. \<open>scandir\<close> lists a directory (a map) in the operating system's order.
\<close>

definition main ::
  "(string \<rightharpoonup> env) \<Rightarrow> (string \<Rightarrow> string \<times> bool) \<Rightarrow> ((string \<rightharpoonup> string) \<Rightarrow> string list)
     \<Rightarrow> files \<Rightarrow> (error + unit) \<times> files"
where
  "main net tool scandir fs =
     (case fetch_json net env_url of
        Inl e \<Rightarrow> (Inl e, fs)
      | Inr e \<Rightarrow>
          (case build_map e of
             Inl err \<Rightarrow> (Inl err, fs)
           | Inr mapping \<Rightarrow>
               (case decompile_all tool (glob_wasm (scandir (contracts fs))) fs of
                  (Inl err, fs') \<Rightarrow> (Inl err, fs')
                | (Inr u, fs') \<Rightarrow> process_pairs mapping (glob_wasm (scandir (decomp fs'))) fs')))"

section \<open>Properties\<close>

subsection \<open>The naming table, as the specification describes it\<close>

text \<open>
  The specification's view of \<^verbatim>\<open>build_map\<close>, to compare the loops with: a module is
  considered when it has a non-empty export alias; a function entry is complete when
  both its export alias and its canonical name are present; the entries of a
  descriptor are the pairs (key, canonical name) of the complete function entries of
  its considered modules, in the order of the document.
\<close>

definition fn_complete :: "fn_entry \<Rightarrow> bool" where
  "fn_complete fn = (fn_export fn \<noteq> None \<and> fn_name fn \<noteq> None)"

definition considered :: "mod_entry \<Rightarrow> bool" where
  "considered md = (case mod_export md of None \<Rightarrow> False | Some a \<Rightarrow> a \<noteq> [])"

definition mod_complete :: "mod_entry \<Rightarrow> bool" where
  "mod_complete md = (if considered md then list_all fn_complete (get_list (mod_functions md)) else True)"

definition entries_complete :: "env \<Rightarrow> bool" where
  "entries_complete e = list_all mod_complete (get_list (env_modules e))"

definition fn_entries :: "string \<Rightarrow> fn_entry list \<Rightarrow> (string \<times> string) list" where
  "fn_entries a fns =
     concat (map (\<lambda>fn. case (fn_export fn, fn_name fn) of
                          (Some x, Some n) \<Rightarrow> [(a @ x, n)] | _ \<Rightarrow> []) fns)"

definition mod_entries :: "mod_entry \<Rightarrow> (string \<times> string) list" where
  "mod_entries md =
     (case mod_export md of
        None \<Rightarrow> []
      | Some a \<Rightarrow> if a = [] then [] else fn_entries a (get_list (mod_functions md)))"

definition descriptor_entries :: "env \<Rightarrow> (string \<times> string) list" where
  "descriptor_entries e = concat (map mod_entries (get_list (env_modules e)))"

subsection \<open>\<^verbatim>\<open>build_map\<close> against the descriptor's entries\<close>

lemma add_functions_error:
  "add_functions a m fns = Inl err \<Longrightarrow> err = FunctionEntryMissing"
  by (induction fns arbitrary: m) (auto split: option.splits)

lemma add_functions_complete:
  "list_all fn_complete fns \<Longrightarrow>
   add_functions a m fns = Inr (m ++ map_of (rev (fn_entries a fns)))"
proof (induction fns arbitrary: m)
  case Nil
  then show ?case by (simp add: fn_entries_def)
next
  case (Cons fn fns)
  then obtain x n where x: "fn_export fn = Some x" and n: "fn_name fn = Some n"
    by (auto simp: fn_complete_def)
  have "add_functions a m (fn # fns) = add_functions a (m(a @ x \<mapsto> n)) fns"
    using x n by simp
  also have "\<dots> = Inr (m(a @ x \<mapsto> n) ++ map_of (rev (fn_entries a fns)))"
    using Cons by simp
  also have "m(a @ x \<mapsto> n) ++ map_of (rev (fn_entries a fns))
             = m ++ map_of (rev (fn_entries a (fn # fns)))"
    using x n by (simp add: fn_entries_def fun_eq_iff map_add_def split: option.splits)
  finally show ?case .
qed


lemma add_modules_skip:
  "\<not> considered md \<Longrightarrow> add_modules m (md # mods) = add_modules m mods"
  by (auto simp: considered_def split: option.splits)

lemma add_modules_considered:
  "considered md \<Longrightarrow>
   add_modules m (md # mods) =
     (case add_functions (the (mod_export md)) m (get_list (mod_functions md)) of
        Inl e \<Rightarrow> Inl e | Inr m' \<Rightarrow> add_modules m' mods)"
  by (auto simp: considered_def split: option.splits)

declare add_modules.simps(2) [simp del]

lemma add_modules_complete:
  "list_all mod_complete mods \<Longrightarrow>
   add_modules m mods = Inr (m ++ map_of (rev (concat (map mod_entries mods))))"
proof (induction mods arbitrary: m)
  case Nil
  then show ?case by simp
next
  case (Cons md mods)
  show ?case
  proof (cases "considered md")
    case False
    then have "mod_entries md = []"
      by (auto simp: considered_def mod_entries_def split: option.splits)
    then show ?thesis using Cons False by (simp add: add_modules_skip)
  next
    case True
    then obtain a where a: "mod_export md = Some a" "a \<noteq> []"
      by (auto simp: considered_def split: option.splits)
    have c: "list_all fn_complete (get_list (mod_functions md))"
      using Cons.prems True by (simp add: mod_complete_def)
    have e: "mod_entries md = fn_entries a (get_list (mod_functions md))"
      using a by (simp add: mod_entries_def)
    show ?thesis
      using Cons a e add_functions_complete [OF c, of a m]
      by (simp add: map_add_assoc add_modules_considered [OF True])
  qed
qed


lemma build_map_complete:
  "entries_complete e \<Longrightarrow> build_map e = Inr (map_of (rev (descriptor_entries e)))"
  by (simp add: entries_complete_def build_map_def descriptor_entries_def add_modules_complete)


lemma add_modules_drop_skipped:
  "\<not> considered md \<Longrightarrow> add_modules m (pre @ md # post) = add_modules m (pre @ post)"
proof (induction pre arbitrary: m)
  case Nil
  then show ?case by (simp add: add_modules_skip)
next
  case (Cons p pre)
  then show ?case
    by (cases "considered p")
       (auto simp: add_modules_skip add_modules_considered split: sum.splits)
qed



subsection \<open>Claims about the naming table\<close>

text \<open>
  \<^bold>\<open>C5\<close>. A module entry that lacks an export alias contributes nothing to the naming
  table: \<^verbatim>\<open>build_map\<close> gives the same result, table or error, as on the descriptor
  without that module, whatever the module's function entries are, and the loop
  passes over the module without an error and without touching the table.
\<close>

theorem module_without_export_alias_is_skipped:
  assumes "mod_export md = None" and "env_modules e = Some (pre @ md # post)"
  shows "build_map e = build_map (e\<lparr>env_modules := Some (pre @ post)\<rparr>)
         \<and> add_modules m [md] = Inr m"
proof -
  have "\<not> considered md" using assms(1) by (simp add: considered_def)
  then show ?thesis
    using assms(2) by (simp add: build_map_def get_list_def add_modules_drop_skipped add_modules_skip)
qed

text \<open>
  The witness: the module without an alias holds a function entry without a name,
  which would be fatal in a module that has an alias.
\<close>

theorem module_without_export_alias_is_skipped_witness:
  "build_map \<lparr>env_modules = Some
      [\<lparr>mod_export = Some ''v'', mod_functions = Some [\<lparr>fn_export = Some ''1'', fn_name = Some ''get''\<rparr>]\<rparr>,
       \<lparr>mod_export = None, mod_functions = Some [\<lparr>fn_export = Some ''2'', fn_name = None\<rparr>]\<rparr>,
       \<lparr>mod_export = Some ''w'', mod_functions = None\<rparr>]\<rparr>
   = build_map \<lparr>env_modules = Some
      [\<lparr>mod_export = Some ''v'', mod_functions = Some [\<lparr>fn_export = Some ''1'', fn_name = Some ''get''\<rparr>]\<rparr>,
       \<lparr>mod_export = Some ''w'', mod_functions = None\<rparr>]\<rparr>
   \<and> add_modules [''k'' \<mapsto> ''n'']
        [\<lparr>mod_export = None, mod_functions = Some [\<lparr>fn_export = Some ''2'', fn_name = None\<rparr>]\<rparr>]
       = Inr [''k'' \<mapsto> ''n'']"
  using module_without_export_alias_is_skipped
    [of "\<lparr>mod_export = None, mod_functions = Some [\<lparr>fn_export = Some ''2'', fn_name = None\<rparr>]\<rparr>"
        "\<lparr>env_modules = Some
      [\<lparr>mod_export = Some ''v'', mod_functions = Some [\<lparr>fn_export = Some ''1'', fn_name = Some ''get''\<rparr>]\<rparr>,
       \<lparr>mod_export = None, mod_functions = Some [\<lparr>fn_export = Some ''2'', fn_name = None\<rparr>]\<rparr>,
       \<lparr>mod_export = Some ''w'', mod_functions = None\<rparr>]\<rparr>"
        "[\<lparr>mod_export = Some ''v'', mod_functions = Some [\<lparr>fn_export = Some ''1'', fn_name = Some ''get''\<rparr>]\<rparr>]"
        "[\<lparr>mod_export = Some ''w'', mod_functions = None\<rparr>]"
        "[''k'' \<mapsto> ''n'']"]
  by simp







text \<open>
  \<^bold>\<open>C7\<close>. When several function entries of the descriptor give the same key (the
  module alias followed directly by the function alias), the table that \<^verbatim>\<open>build_map\<close>
  returns maps the key to the canonical name of the last of them in the order of the
  document, and the duplicate raises no error: a descriptor whose entries are all
  complete always yields a table.
\<close>

theorem later_duplicate_key_wins:
  assumes "entries_complete e"
      and "descriptor_entries e = es1 @ (k, v) # es2"
      and "k \<notin> fst ` set es2"
  shows "\<exists>m. build_map e = Inr m \<and> m k = Some v"
proof -
  have "map_of (rev es2) k = None"
    using assms(3) by (simp add: map_of_eq_None_iff)
  then have "map_of (rev (es1 @ (k, v) # es2)) k = Some v"
    by (simp add: map_add_def)
  then show ?thesis
    using build_map_complete [OF assms(1)] assms(2) by simp
qed

text \<open>
  The witness: \<^verbatim>\<open>"a" + "bc"\<close> and \<^verbatim>\<open>"ab" + "c"\<close> are the same key; the second name
  stays.
\<close>

definition env_with_colliding_keys :: env where
  "env_with_colliding_keys = \<lparr>env_modules = Some
     [\<lparr>mod_export = Some ''a'',
       mod_functions = Some [\<lparr>fn_export = Some ''bc'', fn_name = Some ''first''\<rparr>,
                             \<lparr>fn_export = Some ''d'', fn_name = Some ''other''\<rparr>]\<rparr>,
      \<lparr>mod_export = Some ''ab'',
       mod_functions = Some [\<lparr>fn_export = Some ''c'', fn_name = Some ''second''\<rparr>]\<rparr>]\<rparr>"

theorem later_duplicate_key_wins_witness:
  "descriptor_entries env_with_colliding_keys
     = [(''abc'', ''first''), (''ad'', ''other'')] @ (''abc'', ''second'') # []
   \<and> (\<exists>m. build_map env_with_colliding_keys = Inr m \<and> m ''abc'' = Some ''second'')"
proof -
  have c: "entries_complete env_with_colliding_keys"
    by (simp add: env_with_colliding_keys_def entries_complete_def mod_complete_def
        considered_def fn_complete_def get_list_def)
  have d: "descriptor_entries env_with_colliding_keys
     = [(''abc'', ''first''), (''ad'', ''other'')] @ (''abc'', ''second'') # []"
    by (simp add: env_with_colliding_keys_def descriptor_entries_def mod_entries_def
        fn_entries_def get_list_def)
  show ?thesis
    using later_duplicate_key_wins [OF c d] d by simp
qed




subsection \<open>The loops of the reconciler\<close>

text \<open>
  The loop over the files goes through a prefix of them first; the loop over the pairs
  likewise.
\<close>

lemma process_pairs_append:
  "process_pairs mapping (pre @ rest) fs =
     (case process_pairs mapping pre fs of
        (Inl e, fs') \<Rightarrow> (Inl e, fs')
      | (Inr u, fs') \<Rightarrow> process_pairs mapping rest fs')"
proof (induction pre arbitrary: fs)
  case Nil
  then show ?case by simp
next
  case (Cons f pre)
  show ?case
    by (simp add: Cons.IH Let_def split: option.splits sum.splits)
qed

lemma process_pairs_fails_at:
  assumes "wat fs (stem f @ ''.wat'') = Some wat_text" and "decomp fs f = Some decomp_text"
      and "reconcile_text mapping (stem f) decomp_text wat_text = Inl e"
  shows "process_pairs mapping (f # post) fs = (Inl e, fs)"
  using assms by (simp add: Let_def)

lemma process_pairs_reaches:
  assumes "process_pairs mapping pre fs = (Inr (), fs1)"
      and "wat fs1 (stem f @ ''.wat'') = Some wat_text" and "decomp fs1 f = Some decomp_text"
      and "reconcile_text mapping (stem f) decomp_text wat_text = Inl e"
  shows "process_pairs mapping (pre @ f # post) fs = (Inl e, fs1)"
  using assms by (simp add: process_pairs_append Let_def)

lemma subst_pairs_append:
  "subst_pairs mapping name doc (ps1 @ ps2) =
     (case subst_pairs mapping name doc ps1 of
        Inl e \<Rightarrow> Inl e
      | Inr doc' \<Rightarrow> subst_pairs mapping name doc' ps2)"
  by (induction ps1 arbitrary: doc) (auto simp: Let_def split: option.splits)

lemma subst_pairs_missing_key:
  assumes "(orig, m1, m2) \<in> set ps" and "mapping (m1 @ m2) = None"
  shows "\<exists>e. subst_pairs mapping name doc ps = Inl e"
  using assms by (induction ps arbitrary: doc) (auto simp: Let_def split: option.splits)

subsection \<open>The scenario of the specification, as data\<close>

text \<open>
  \<open>dq s\<close> is \<open>s\<close> between double quotes. The descriptor, the decompiled text and the
  disassembly are those of the specification's scenario; the decompiled text also
  calls the import, and the second pair of texts has two imports.
\<close>

definition dq :: "string \<Rightarrow> string" where
  "dq s = CHR 0x22 # s @ [CHR 0x22]"


definition scenario_table :: naming_table where
  "scenario_table = [''v1'' \<mapsto> ''read_contract_data'']"

definition scenario_decomp :: string where
  "scenario_decomp =
     ''import function l_1(a:long):long; // func0\<newline>\<newline>'' @
     ''export function get(a:long):long { // func1\<newline>  return l_1(a);\<newline>}\<newline>''"

definition scenario_renamed :: string where
  "scenario_renamed =
     ''import function read_contract_data(a:long):long; // func0\<newline>\<newline>'' @
     ''export function get(a:long):long { // func1\<newline>  return read_contract_data(a);\<newline>}\<newline>''"

definition scenario_wat :: string where
  "scenario_wat = ''(import '' @ dq ''v'' @ '' '' @ dq ''1'' @ '' (func (;0;) (type 0)))''"


lemma scenario_decomp_imports: "extract_decomp_imports scenario_decomp = [''l_1'']"
  by code_simp

lemma scenario_wat_imports: "extract_wat_imports scenario_wat = [(''v'', ''1'')]"
  by code_simp

lemma scenario_renamed_imports: "extract_decomp_imports scenario_renamed = [''read_contract_data'']"
  by code_simp

lemma scenario_contains: "contains '' l_1('' scenario_decomp"
  by code_simp

lemma scenario_replace:
  "replace '' l_1('' '' read_contract_data('' scenario_decomp = scenario_renamed"
  by code_simp

lemma scenario_reconcile:
  "reconcile_text scenario_table ''c'' scenario_decomp scenario_wat = Inr scenario_renamed"
  by (simp add: reconcile_text_def scenario_decomp_imports scenario_wat_imports
      scenario_contains scenario_replace scenario_table_def)

lemma stem_c: "stem ''c.wasm'' = ''c''"
  by code_simp




definition two_decomp :: string where
  "two_decomp =
     ''import function l_1(a:long):long; // func0\<newline>'' @
     ''import function l_2(a:long, b:long):long; // func1\<newline>\<newline>'' @
     ''export function get(a:long):long { // func2\<newline>  return l_2(a, l_1(a));\<newline>}\<newline>''"

definition two_wat :: string where
  "two_wat =
     ''(module\<newline>  (import '' @ dq ''v'' @ '' '' @ dq ''1'' @ '' (func (;0;) (type 0)))\<newline>'' @
     ''  (import '' @ dq ''v'' @ '' '' @ dq ''2'' @ '' (func (;1;) (type 1))))''"

lemma two_decomp_imports: "extract_decomp_imports two_decomp = [''l_1'', ''l_2'']"
  by code_simp

lemma two_wat_imports: "extract_wat_imports two_wat = [(''v'', ''1''), (''v'', ''2'')]"
  by code_simp

subsection \<open>Claims about the fatal errors of the reconciler\<close>

text \<open>
  \<^bold>\<open>C2\<close>. When the loop reaches a decompiled file whose text yields a number of
  import identifiers different from the number of pairs of its disassembly, the run
  ends with the fatal error whose message names the file's stem and both counts, and
  the directories are as they were when the file was reached: the file is not
  written.
\<close>

theorem import_count_mismatch_is_fatal:
  assumes "process_pairs mapping pre fs = (Inr (), fs1)"
      and "wat fs1 (stem f @ ''.wat'') = Some wat_text"
      and "decomp fs1 f = Some decomp_text"
      and "length (extract_decomp_imports decomp_text) \<noteq> length (extract_wat_imports wat_text)"
  shows "process_pairs mapping (pre @ f # post) fs
           = (Inl (ImportCountMismatch (stem f) (length (extract_decomp_imports decomp_text))
                    (length (extract_wat_imports wat_text))), fs1)
         \<and> exit_message (ImportCountMismatch (stem f) (length (extract_decomp_imports decomp_text))
                    (length (extract_wat_imports wat_text)))
             = Some (''import count mismatch in '' @ stem f
                 @ '': decomp='' @ string_of_nat (length (extract_decomp_imports decomp_text))
                 @ '' wat='' @ string_of_nat (length (extract_wat_imports wat_text)))
         \<and> decomp fs1 f = Some decomp_text"
proof -
  have "reconcile_text mapping (stem f) decomp_text wat_text
          = Inl (ImportCountMismatch (stem f) (length (extract_decomp_imports decomp_text))
                    (length (extract_wat_imports wat_text)))"
    using assms(4) by (simp add: reconcile_text_def Let_def)
  from process_pairs_reaches [OF assms(1-3) this] show ?thesis
    using assms(3) by simp
qed

text \<open>The witness: one import in the decompiled text, two in the disassembly.\<close>

definition mismatch_files :: files where
  "mismatch_files = \<lparr>contracts = Map.empty,
     wat = [''c.wat'' \<mapsto> two_wat], decomp = [''c.wasm'' \<mapsto> scenario_decomp]\<rparr>"

theorem import_count_mismatch_is_fatal_witness:
  "process_pairs scenario_table ([] @ ''c.wasm'' # [''d.wasm'']) mismatch_files
     = (Inl (ImportCountMismatch ''c'' 1 2), mismatch_files)
   \<and> exit_message (ImportCountMismatch ''c'' 1 2) = Some ''import count mismatch in c: decomp=1 wat=2''
   \<and> decomp mismatch_files ''c.wasm'' = Some scenario_decomp"
proof -
  have a: "process_pairs scenario_table [] mismatch_files = (Inr (), mismatch_files)"
    by simp
  have b: "wat mismatch_files (stem ''c.wasm'' @ ''.wat'') = Some two_wat"
    by (simp add: stem_c mismatch_files_def)
  have c: "decomp mismatch_files ''c.wasm'' = Some scenario_decomp"
    by (simp add: mismatch_files_def)
  have d: "length (extract_decomp_imports scenario_decomp) \<noteq> length (extract_wat_imports two_wat)"
    by (simp add: scenario_decomp_imports two_wat_imports)
  have n: "string_of_nat (Suc 0) = ''1''" "string_of_nat 2 = ''2''"
    by code_simp+
  show ?thesis
    using import_count_mismatch_is_fatal [OF a b c d, of "[''d.wasm'']"] c
    by (simp del: process_pairs.simps add: scenario_decomp_imports two_wat_imports stem_c n)
qed

text \<open>
  \<^bold>\<open>C3\<close>. When the loop reaches a decompiled file and the key of one of its
  positional pairs (module alias directly followed by field alias) is not in the
  naming table, the run ends with a fatal error and the file is not written: the
  directories are as they were when the file was reached. When the pairs before that
  one have been substituted in memory, however many they are, the error is the lookup
  miss, and its message names the key and the file's stem.
\<close>

theorem lookup_miss_is_fatal_before_write:
  assumes "process_pairs mapping pre fs = (Inr (), fs1)"
      and "wat fs1 (stem f @ ''.wat'') = Some wat_text"
      and "decomp fs1 f = Some decomp_text"
      and "length (extract_decomp_imports decomp_text) = length (extract_wat_imports wat_text)"
      and "zip (extract_decomp_imports decomp_text) (extract_wat_imports wat_text)
             = ps1 @ (orig, m1, m2) # ps2"
      and "mapping (m1 @ m2) = None"
  shows "(\<exists>e. process_pairs mapping (pre @ f # post) fs = (Inl e, fs1))
         \<and> decomp fs1 f = Some decomp_text
         \<and> (\<forall>doc. subst_pairs mapping (stem f) decomp_text ps1 = Inr doc \<longrightarrow>
               process_pairs mapping (pre @ f # post) fs
                 = (Inl (MappingNotFound (m1 @ m2) (stem f)), fs1)
               \<and> exit_message (MappingNotFound (m1 @ m2) (stem f))
                 = Some (''mapping not found for '' @ m1 @ m2 @ '' (file '' @ stem f @ '')''))"
proof -
  let ?ps = "ps1 @ (orig, m1, m2) # ps2"
  have r: "reconcile_text mapping (stem f) decomp_text wat_text
             = subst_pairs mapping (stem f) decomp_text ?ps"
    using assms(4,5) by (simp add: reconcile_text_def Let_def)
  obtain e where e: "subst_pairs mapping (stem f) decomp_text ?ps = Inl e"
    using subst_pairs_missing_key [of orig m1 m2 ?ps mapping "stem f" decomp_text] assms(6)
    by auto
  have a: "process_pairs mapping (pre @ f # post) fs = (Inl e, fs1)"
    using process_pairs_reaches [OF assms(1-3)] r e by simp
  have b: "e = MappingNotFound (m1 @ m2) (stem f)"
    if "subst_pairs mapping (stem f) decomp_text ps1 = Inr doc" for doc
    using e that assms(6) by (simp add: subst_pairs_append Let_def)
  show ?thesis using a b assms(3) by auto
qed

text \<open>
  The witness: the first of two pairs is in the table and is substituted in memory,
  the second is not.
\<close>

definition miss_files :: files where
  "miss_files = \<lparr>contracts = Map.empty,
     wat = [''c.wat'' \<mapsto> two_wat], decomp = [''c.wasm'' \<mapsto> two_decomp]\<rparr>"

lemma two_contains_l_1: "contains '' l_1('' two_decomp"
  by code_simp

theorem lookup_miss_is_fatal_before_write_witness:
  "process_pairs scenario_table ([] @ ''c.wasm'' # []) miss_files
     = (Inl (MappingNotFound ''v2'' ''c''), miss_files)
   \<and> exit_message (MappingNotFound ''v2'' ''c'') = Some ''mapping not found for v2 (file c)''
   \<and> decomp miss_files ''c.wasm'' = Some two_decomp
   \<and> subst_pairs scenario_table ''c'' two_decomp [(''l_1'', ''v'', ''1'')]
       = Inr (replace '' l_1('' '' read_contract_data('' two_decomp)"
proof -
  have a: "process_pairs scenario_table [] miss_files = (Inr (), miss_files)"
    by simp
  have b: "wat miss_files (stem ''c.wasm'' @ ''.wat'') = Some two_wat"
    by (simp add: stem_c miss_files_def)
  have c: "decomp miss_files ''c.wasm'' = Some two_decomp"
    by (simp add: miss_files_def)
  have d: "length (extract_decomp_imports two_decomp) = length (extract_wat_imports two_wat)"
    by (simp add: two_decomp_imports two_wat_imports)
  have e: "zip (extract_decomp_imports two_decomp) (extract_wat_imports two_wat)
             = [(''l_1'', ''v'', ''1'')] @ (''l_2'', ''v'', ''2'') # []"
    by (simp add: two_decomp_imports two_wat_imports)
  have f: "scenario_table (''v'' @ ''2'') = None"
    by (simp add: scenario_table_def)
  have g: "subst_pairs scenario_table ''c'' two_decomp [(''l_1'', ''v'', ''1'')]
       = Inr (replace '' l_1('' '' read_contract_data('' two_decomp)"
    by (simp add: scenario_table_def two_contains_l_1)
  show ?thesis
    using lookup_miss_is_fatal_before_write [OF a b c d e f, of "[]"] c g
    by (simp del: process_pairs.simps subst_pairs.simps add: stem_c)
qed

subsection \<open>Occurrences of a name between a space and a parenthesis\<close>

text \<open>
  \<open>call x\<close> is the substring \<^verbatim>\<open>" x("\<close> that the reconciler looks for and replaces. A
  name is plain when it holds neither a space nor an opening parenthesis; the
  identifiers the first regular expression extracts are plain.
\<close>

definition call :: "string \<Rightarrow> string" where
  "call x = CHR '' '' # x @ ''(''"

definition plain :: "string \<Rightarrow> bool" where
  "plain x = (CHR '' '' \<notin> set x \<and> CHR ''('' \<notin> set x)"

lemma contains_sublist: "contains p s = sublist p s"
  by (induction s) (auto simp: sublist_Cons_right)

lemma contains_Cons: "contains p (c # cs) = (prefix p (c # cs) \<or> contains p cs)"
  by simp

lemma contains_drop: "contains p (drop k s) \<Longrightarrow> contains p s"
  unfolding contains_sublist using sublist_drop sublist_order.order_trans by blast


lemma contains_skip_no_first:
  "c \<notin> set u \<Longrightarrow> contains (c # p) (u @ s) = contains (c # p) s"
  by (induction u) auto

lemma replace_call: "replace (call x) (call n) s = replace_scan (call x) (call n) s"
  by (simp add: replace_def call_def)

lemma prefix_replace_scan:
  "CHR '' '' \<notin> set ys \<Longrightarrow>
   prefix ys (replace_scan (CHR '' '' # old) (CHR '' '' # new) s) = prefix ys s"
proof (induction ys arbitrary: s)
  case Nil
  then show ?case by simp
next
  case (Cons y ys)
  show ?case
  proof (cases s)
    case Nil
    then show ?thesis by simp
  next
    case (Cons c cs)
    show ?thesis
    proof (cases "c = CHR '' ''")
      case True
      then show ?thesis using Cons Cons.prems by auto
    next
      case False
      then show ?thesis using Cons Cons.prems Cons.IH [of cs] by auto
    qed
  qed
qed

lemma call_prefix_same:
  "plain x \<Longrightarrow> plain n \<Longrightarrow> prefix (x @ ''('') (n @ ''('' @ t) \<Longrightarrow> x = n"
proof (induction x arbitrary: n)
  case Nil
  then show ?case by (cases n) (auto simp: plain_def)
next
  case (Cons a x)
  then show ?case by (cases n) (auto simp: plain_def)
qed

lemma no_call_in_call:
  assumes "plain x" and "plain n" and "n \<noteq> x" and "\<not> contains (call x) r"
  shows "\<not> contains (call x) (call n @ r)"
proof -
  have a: "\<not> prefix (call x) (call n @ r)"
    using call_prefix_same [OF assms(1,2), of r] assms(3) by (auto simp: call_def)
  have "CHR '' '' \<notin> set (n @ ''('')" using assms(2) by (simp add: plain_def)
  then have "contains (call x) ((n @ ''('') @ r) = contains (call x) r"
    unfolding call_def by (rule contains_skip_no_first)
  then have "\<not> contains (call x) (n @ ''('' @ r)" using assms(4) by simp
  then show ?thesis using a by (simp add: call_def)
qed

lemma replace_scan_removes_call:
  assumes "plain x" and "plain n" and "n \<noteq> x"
  shows "\<not> contains (call x) (replace_scan (call x) (call n) s)"
proof (induction "call x" "call n" s rule: replace_scan.induct)
  case 1
  then show ?case by (simp add: call_def)
next
  case (2 c cs)
  show ?case
  proof (cases "prefix (call x) (c # cs)")
    case True
    then show ?thesis
      using 2(1) no_call_in_call [OF assms] by simp
  next
    case False
    have "prefix (x @ ''('') (replace_scan (call x) (call n) cs) = prefix (x @ ''('') cs"
      unfolding call_def using assms(1) by (intro prefix_replace_scan) (simp add: plain_def)
    then have "\<not> prefix (call x) (c # replace_scan (call x) (call n) cs)"
      using False by (auto simp: call_def)
    then show ?thesis using False 2(2) by simp
  qed
qed

lemma replace_scan_keeps_call_absent:
  assumes "plain x" and "plain n" and "n \<noteq> x"
  shows "\<not> contains (call x) s \<Longrightarrow> \<not> contains (call x) (replace_scan (call old) (call n) s)"
proof (induction "call old" "call n" s rule: replace_scan.induct)
  case 1
  then show ?case by simp
next
  case (2 c cs)
  show ?case
  proof (cases "prefix (call old) (c # cs)")
    case True
    have "\<not> contains (call x) (drop (length (call old) - 1) cs)"
      using 2(3) contains_drop [of "call x" "length (call old) - 1" cs] by auto
    then show ?thesis
      using True 2(1) no_call_in_call [OF assms] by simp
  next
    case False
    have "prefix (x @ ''('') (replace_scan (call old) (call n) cs) = prefix (x @ ''('') cs"
      unfolding call_def using assms(1) by (intro prefix_replace_scan) (simp add: plain_def)
    moreover have "\<not> prefix (call x) (c # cs)" and "\<not> contains (call x) cs"
      using 2(3) by auto
    ultimately have "\<not> prefix (call x) (c # replace_scan (call old) (call n) cs)"
      by (auto simp: call_def)
    then show ?thesis using False 2(2) \<open>\<not> contains (call x) cs\<close> by simp
  qed
qed


lemma replace_scan_same_aux: "new = old \<Longrightarrow> old \<noteq> [] \<Longrightarrow> replace_scan old new s = s"
proof (induction old new s rule: replace_scan.induct)
  case (1 old new)
  then show ?case by simp
next
  case (2 old new c cs)
  show ?case
  proof (cases "prefix old (c # cs)")
    case True
    then obtain t where t: "c # cs = old @ t" by (auto simp: prefix_def)
    show ?thesis
    proof (cases old)
      case Nil
      then show ?thesis using 2 by simp
    next
      case (Cons a as)
      then have d: "drop (length old - 1) cs = t" using t by simp
      have "replace_scan old new (c # cs)
              = new @ replace_scan old new (drop (length old - 1) cs)"
        using True by simp
      also have "\<dots> = old @ t" using 2 True d by simp
      also have "\<dots> = c # cs" using t by simp
      finally show ?thesis .
    qed
  next
    case False
    then show ?thesis using 2 by simp
  qed
qed

lemma replace_scan_same: "p \<noteq> [] \<Longrightarrow> replace_scan p p s = s"
  by (simp add: replace_scan_same_aux)





lemma match_decomp_import_ident:
  assumes "match_decomp_import prev s = Some (ident, rest)"
  shows "ident \<noteq> [] \<and> (\<forall>c \<in> set ident. ident_char c)"
proof -
  obtain r where "ident = takeWhile ident_char r" and "ident \<noteq> []"
    using assms unfolding match_decomp_import_def Let_def
    by (auto split: if_splits list.splits)
  then show ?thesis by (auto dest: set_takeWhileD)
qed

lemma findall_decomp_ident:
  "i \<in> set (findall_decomp prev s) \<Longrightarrow> i \<noteq> [] \<and> (\<forall>c \<in> set i. ident_char c)"
proof (induction prev s rule: findall_decomp.induct)
  case (1 prev)
  then show ?case by simp
next
  case (2 prev c cs)
  show ?case
  proof (cases "match_decomp_import prev (c # cs)")
    case None
    then show ?thesis using 2 by simp
  next
    case (Some a)
    obtain ident rest where a: "a = (ident, rest)" by (cases a)
    show ?thesis
      using 2 Some a match_decomp_import_ident [of prev "c # cs" ident rest]
      by auto
  qed
qed

lemma ident_chars_plain: "\<forall>c \<in> set i. ident_char c \<Longrightarrow> plain i"
  by (auto simp: plain_def ident_char_def)

lemma extracted_import_plain: "i \<in> set (extract_decomp_imports d) \<Longrightarrow> plain i"
  unfolding extract_decomp_imports_def by (blast dest: findall_decomp_ident intro: ident_chars_plain)

lemma subst_pairs_step:
  "subst_pairs mapping name doc ((orig, m1, m2) # ps) =
     (case mapping (m1 @ m2) of
        None \<Rightarrow> Inl (MappingNotFound (m1 @ m2) name)
      | Some new \<Rightarrow>
          if contains (call orig) doc
          then subst_pairs mapping name (replace_scan (call orig) (call new) doc) ps
          else Inl (ExpectedNotFound orig name))"
  by (simp add: Let_def call_def replace_def split: option.splits)

lemma subst_pairs_keeps_call_absent:
  assumes "plain x"
      and "\<forall>(orig, a, b) \<in> set ps. \<forall>n. mapping (a @ b) = Some n \<longrightarrow> plain n \<and> n \<noteq> x"
  shows "\<not> contains (call x) doc \<Longrightarrow> subst_pairs mapping name doc ps = Inr doc'
         \<Longrightarrow> \<not> contains (call x) doc'"
  using assms(2)
proof (induction ps arbitrary: doc)
  case Nil
  then show ?case by simp
next
  case (Cons p ps)
  obtain orig a b where p: "p = (orig, a, b)" by (cases p)
  from Cons.prems(2) p obtain n where n: "mapping (a @ b) = Some n"
    and c: "contains (call orig) doc"
    and r: "subst_pairs mapping name (replace_scan (call orig) (call n) doc) ps = Inr doc'"
    by (auto simp: subst_pairs_step simp del: subst_pairs.simps split: option.splits if_splits)
  have "plain n" "n \<noteq> x" using Cons.prems(3) p n by auto
  then have "\<not> contains (call x) (replace_scan (call orig) (call n) doc)"
    using replace_scan_keeps_call_absent [OF assms(1)] Cons.prems(1) by blast
  then show ?case using Cons.IH r Cons.prems(3) by simp
qed

subsection \<open>Renaming in one pass, as the specification describes the result\<close>













subsection \<open>Claims about the renaming\<close>












definition scenario_outputs :: files where
  "scenario_outputs = \<lparr>contracts = [''c.wasm'' \<mapsto> ''wasm-bytes''],
     wat = [''c.wat'' \<mapsto> scenario_wat], decomp = [''c.wasm'' \<mapsto> scenario_decomp]\<rparr>"


text \<open>
  \<^bold>\<open>C9\<close> (amended). When an import identifier stands at two positions of a file's
  import list, the canonical name of the first occurrence is plain and differs from
  the identifier, and the canonical names of the pairs in between are plain and differ
  from it too, the reconciliation of the file is fatal; when the pairs before the
  second occurrence have been substituted and its key is in the table, the error is
  the missing substring \<^verbatim>\<open>" identifier("\<close>. As stated, without the condition on the
  names in between, the claim fails: a pair in between can put the identifier back.
\<close>

theorem duplicate_import_identifier_is_fatal:
  assumes "length (extract_decomp_imports d) = length (extract_wat_imports w)"
      and "zip (extract_decomp_imports d) (extract_wat_imports w)
             = ps1 @ (x, m1, m2) # mid @ (x, k1, k2) # ps2"
      and "mapping (m1 @ m2) = Some new" and "new \<noteq> x" and "plain new"
      and "\<forall>(orig, a, b) \<in> set mid. \<forall>n. mapping (a @ b) = Some n \<longrightarrow> plain n \<and> n \<noteq> x"
      and "mapping (k1 @ k2) = Some new2"
  shows "(\<exists>e. reconcile_text mapping name d w = Inl e)
         \<and> (\<forall>doc. subst_pairs mapping name d (ps1 @ (x, m1, m2) # mid) = Inr doc \<longrightarrow>
               reconcile_text mapping name d w = Inl (ExpectedNotFound x name))"
proof -
  let ?first = "ps1 @ (x, m1, m2) # mid"
  let ?all = "ps1 @ (x, m1, m2) # mid @ (x, k1, k2) # ps2"
  have "(x, m1, m2) \<in> set (zip (extract_decomp_imports d) (extract_wat_imports w))"
    using assms(2) by simp
  then have "x \<in> set (extract_decomp_imports d)" by (rule set_zip_leftD)
  then have px: "plain x" by (rule extracted_import_plain)
  have r: "reconcile_text mapping name d w = subst_pairs mapping name d ?all"
    using assms(1,2) by (simp add: reconcile_text_def Let_def)
  have split: "subst_pairs mapping name d ?all =
      (case subst_pairs mapping name d ?first of
         Inl e \<Rightarrow> Inl e
       | Inr doc \<Rightarrow> subst_pairs mapping name doc ((x, k1, k2) # ps2))"
    using subst_pairs_append [of mapping name d ?first "(x, k1, k2) # ps2"] by simp
  have gone: "\<not> contains (call x) doc" if "subst_pairs mapping name d ?first = Inr doc" for doc
  proof -
    from that obtain d1 where d1: "subst_pairs mapping name d ps1 = Inr d1"
      and rest: "subst_pairs mapping name d1 ((x, m1, m2) # mid) = Inr doc"
      by (auto simp: subst_pairs_append [of mapping name d ps1] simp del: subst_pairs.simps
          split: sum.splits)
    from rest have m: "subst_pairs mapping name (replace_scan (call x) (call new) d1) mid = Inr doc"
      using assms(3) by (auto simp: subst_pairs_step simp del: subst_pairs.simps split: if_splits)
    have "\<not> contains (call x) (replace_scan (call x) (call new) d1)"
      using replace_scan_removes_call [OF px assms(5,4)] .
    then show ?thesis
      using subst_pairs_keeps_call_absent [OF px assms(6) _ m] by blast
  qed
  have fail: "subst_pairs mapping name doc ((x, k1, k2) # ps2) = Inl (ExpectedNotFound x name)"
    if "subst_pairs mapping name d ?first = Inr doc" for doc
    using gone [OF that] assms(7) by (simp add: subst_pairs_step del: subst_pairs.simps)
  show ?thesis
    using r split fail by (auto split: sum.splits)
qed

text \<open>
  The counterexample to the claim as stated: \<^verbatim>\<open>f\<close> is imported first and third, its
  first canonical name is \<^verbatim>\<open>alpha\<close>, and the second import is renamed to \<^verbatim>\<open>f\<close>; the
  third pair then finds \<^verbatim>\<open>" f("\<close> and the file is reconciled without an error.
\<close>

definition dup_decomp :: string where
  "dup_decomp =
     ''import function f(a:int):int; // func0\<newline>'' @
     ''import function g(a:int):int; // func1\<newline>'' @
     ''import function f(a:int):int; // func2\<newline>''"

definition three_wat :: string where
  "three_wat =
     ''(import '' @ dq ''m'' @ '' '' @ dq ''1'' @ '' (func (;0;) (type 0)))\<newline>'' @
     ''(import '' @ dq ''m'' @ '' '' @ dq ''2'' @ '' (func (;1;) (type 0)))\<newline>'' @
     ''(import '' @ dq ''m'' @ '' '' @ dq ''3'' @ '' (func (;2;) (type 0)))\<newline>''"

definition reintroducing_table :: naming_table where
  "reintroducing_table = [''m1'' \<mapsto> ''alpha'', ''m2'' \<mapsto> ''f'', ''m3'' \<mapsto> ''beta'']"

definition distinct_table :: naming_table where
  "distinct_table = [''m1'' \<mapsto> ''alpha'', ''m2'' \<mapsto> ''gamma'', ''m3'' \<mapsto> ''beta'']"

lemma dup_decomp_imports: "extract_decomp_imports dup_decomp = [''f'', ''g'', ''f'']"
  by code_simp

lemma three_wat_imports:
  "extract_wat_imports three_wat = [(''m'', ''1''), (''m'', ''2''), (''m'', ''3'')]"
  by code_simp

theorem duplicate_import_identifier_counterexample:
  "extract_decomp_imports dup_decomp = [''f'', ''g'', ''f'']
   \<and> extract_wat_imports three_wat = [(''m'', ''1''), (''m'', ''2''), (''m'', ''3'')]
   \<and> reintroducing_table ''m1'' = Some ''alpha''
   \<and> reintroducing_table ''m2'' = Some ''f''
   \<and> reintroducing_table ''m3'' = Some ''beta''
   \<and> reconcile_text reintroducing_table ''c'' dup_decomp three_wat
       = Inr (''import function alpha(a:int):int; // func0\<newline>'' @
              ''import function beta(a:int):int; // func1\<newline>'' @
              ''import function alpha(a:int):int; // func2\<newline>'')"
  by code_simp

text \<open>The witness: with \<^verbatim>\<open>gamma\<close> for the second import, the third pair fails.\<close>

theorem duplicate_import_identifier_is_fatal_witness:
  "reconcile_text distinct_table ''c'' dup_decomp three_wat = Inl (ExpectedNotFound ''f'' ''c'')"
proof -
  have l: "length (extract_decomp_imports dup_decomp) = length (extract_wat_imports three_wat)"
    by (simp add: dup_decomp_imports three_wat_imports)
  have z: "zip (extract_decomp_imports dup_decomp) (extract_wat_imports three_wat)
             = [] @ (''f'', ''m'', ''1'') # [(''g'', ''m'', ''2'')] @ (''f'', ''m'', ''3'') # []"
    by (simp add: dup_decomp_imports three_wat_imports)
  have k1: "distinct_table (''m'' @ ''1'') = Some ''alpha''"
    by (simp add: distinct_table_def)
  have ne: "''alpha'' \<noteq> ''f''" by simp
  have pl: "plain ''alpha''" by (simp add: plain_def)
  have mid: "\<forall>(orig, a, b) \<in> set [(''g'', ''m'', ''2'')].
               \<forall>n. distinct_table (a @ b) = Some n \<longrightarrow> plain n \<and> n \<noteq> ''f''"
    by (simp add: distinct_table_def plain_def)
  have k3: "distinct_table (''m'' @ ''3'') = Some ''beta''"
    by (simp add: distinct_table_def)
  have first: "subst_pairs distinct_table ''c'' dup_decomp
                 ([] @ (''f'', ''m'', ''1'') # [(''g'', ''m'', ''2'')])
       = Inr (''import function alpha(a:int):int; // func0\<newline>'' @
              ''import function gamma(a:int):int; // func1\<newline>'' @
              ''import function alpha(a:int):int; // func2\<newline>'')"
    by code_simp
  from duplicate_import_identifier_is_fatal [OF l z k1 ne pl mid k3, of "''c''"] first
  show ?thesis by blast
qed

subsection \<open>A second run\<close>

text \<open>
  A pair whose canonical name is the identifier itself leaves the text as it is. The
  second table gives the scenario's import a name that is not an identifier.
\<close>

lemma subst_pairs_already_canonical:
  assumes "\<forall>(orig, m1, m2) \<in> set ps.
             mapping (m1 @ m2) = Some orig \<and> contains ('' '' @ orig @ ''('') doc"
  shows "subst_pairs mapping name doc ps = Inr doc"
  using assms
proof (induction ps)
  case Nil
  then show ?case by simp
next
  case (Cons p ps)
  obtain orig m1 m2 where p: "p = (orig, m1, m2)" by (cases p)
  have "mapping (m1 @ m2) = Some orig" and "contains (call orig) doc"
    using Cons.prems p by (auto simp: call_def)
  then have "subst_pairs mapping name doc (p # ps) = subst_pairs mapping name doc ps"
    unfolding p by (simp add: subst_pairs_step replace_scan_same call_def del: subst_pairs.simps)
  then show ?case using Cons by simp
qed

lemma scenario_second_reconcile:
  "reconcile_text scenario_table ''c'' scenario_renamed scenario_wat = Inr scenario_renamed"
  by code_simp

definition hyphen_table :: naming_table where
  "hyphen_table = [''v1'' \<mapsto> ''read-contract-data'']"

definition hyphen_renamed :: string where
  "hyphen_renamed =
     ''import function read-contract-data(a:long):long; // func0\<newline>\<newline>'' @
     ''export function get(a:long):long { // func1\<newline>  return read-contract-data(a);\<newline>}\<newline>''"

text \<open>
  \<^bold>\<open>C4\<close> (amended). A second run extracts the identifiers afresh from the renamed
  text. When every identifier it extracts is the canonical name of its pair and
  occurs as \<^verbatim>\<open>" name("\<close>, the second run succeeds and leaves the text as it is; it
  fails, for one, when a canonical name is not made of identifier characters: the
  renamed declaration is then no longer extracted and the counts differ.
\<close>

theorem second_run_on_renamed_text:
  "(length (extract_decomp_imports doc) = length (extract_wat_imports w) \<longrightarrow>
    (\<forall>(orig, m1, m2) \<in> set (zip (extract_decomp_imports doc) (extract_wat_imports w)).
        mapping (m1 @ m2) = Some orig \<and> contains ('' '' @ orig @ ''('') doc) \<longrightarrow>
    reconcile_text mapping name doc w = Inr doc)
   \<and> reconcile_text hyphen_table ''c'' scenario_decomp scenario_wat = Inr hyphen_renamed
   \<and> reconcile_text hyphen_table ''c'' hyphen_renamed scenario_wat
       = Inl (ImportCountMismatch ''c'' 0 1)"
proof (intro conjI impI)
  assume "length (extract_decomp_imports doc) = length (extract_wat_imports w)"
    and "\<forall>(orig, m1, m2) \<in> set (zip (extract_decomp_imports doc) (extract_wat_imports w)).
        mapping (m1 @ m2) = Some orig \<and> contains ('' '' @ orig @ ''('') doc"
  then show "reconcile_text mapping name doc w = Inr doc"
    by (simp add: reconcile_text_def Let_def subst_pairs_already_canonical)
next
  show "reconcile_text hyphen_table ''c'' scenario_decomp scenario_wat = Inr hyphen_renamed"
    by code_simp
next
  show "reconcile_text hyphen_table ''c'' hyphen_renamed scenario_wat
       = Inl (ImportCountMismatch ''c'' 0 1)"
    by code_simp
qed

text \<open>
  The counterexample to the claim as stated: on the renamed file of the scenario the
  second run does not fail; it extracts \<^verbatim>\<open>read_contract_data\<close>, replaces it by itself
  and writes the same text.
\<close>

theorem second_run_counterexample:
  "process_pairs scenario_table [''c.wasm''] scenario_outputs
     = (Inr (), scenario_outputs\<lparr>decomp := [''c.wasm'' \<mapsto> scenario_renamed]\<rparr>)
   \<and> process_pairs scenario_table [''c.wasm'']
        (scenario_outputs\<lparr>decomp := [''c.wasm'' \<mapsto> scenario_renamed]\<rparr>)
     = (Inr (), scenario_outputs\<lparr>decomp := [''c.wasm'' \<mapsto> scenario_renamed]\<rparr>)"
  by (simp add: scenario_outputs_def stem_c scenario_reconcile scenario_second_reconcile)

text \<open>The witness: the renamed file of the scenario is such a text.\<close>

theorem second_run_on_renamed_text_witness:
  "reconcile_text scenario_table ''c'' scenario_renamed scenario_wat = Inr scenario_renamed"
proof -
  have a: "extract_decomp_imports scenario_renamed = [''read_contract_data'']"
    by code_simp
  have b: "extract_wat_imports scenario_wat = [(''v'', ''1'')]"
    by code_simp
  have c: "contains ('' '' @ ''read_contract_data'' @ ''('') scenario_renamed"
    by code_simp
  show ?thesis
    using second_run_on_renamed_text [of scenario_renamed scenario_wat scenario_table "''c''"] c
    by (simp add: a b scenario_table_def)
qed

subsection \<open>The address that is fetched\<close>




end
